theory Spec2Isabelle
  imports Main "HOL-Library.Word" "HOL-Library.Sublist"
begin

section \<open>Owner-id allocator of the cache (cache/cache.cc)\<close>

text \<open>
  \<^verbatim>\<open>Cache::ItemOwnerIdAllocator\<close> hands out the owner ids that tag cache entries. The
  class declaration lives in the header \<^verbatim>\<open>rocksdb/cache.h\<close>; the translation unit only
  shows the member functions. The id type \<^verbatim>\<open>ItemOwnerId\<close> is an unsigned machine integer
  whose width the header fixes: it is a word of arbitrary width \<open>'w\<close> here. The
  constants the member functions compare against are declared in the header as well and
  are parameters of the model, collected in one record.
\<close>

record (overloaded) 'w OwnerIdConsts =
  kUnknownItemId :: "'w word"
  kMaxOwnerItemId :: "'w word"
  kMaxFreeItemOwnersIdListSize :: nat
  initial_next_item_owner_id :: "'w word"

text \<open>
  The data members the two member functions read and write: \<^verbatim>\<open>free_ids_\<close> (a list used
  as a queue: \<^verbatim>\<open>push_back\<close>, \<^verbatim>\<open>front\<close>, \<^verbatim>\<open>pop_front\<close>), \<^verbatim>\<open>next_item_owner_id_\<close> and
  \<^verbatim>\<open>has_wrapped_around_\<close>. The mutex serialises the calls; each call is one atomic
  step on this record.
\<close>

record (overloaded) 'w ItemOwnerIdAllocator =
  free_ids :: "'w word list"
  next_item_owner_id :: "'w word"
  has_wrapped_around :: bool

text \<open>
  \<^verbatim>\<open>Allocate\<close>: the returned id and the allocator afterwards. The post-increment
  \<^verbatim>\<open>next_item_owner_id_++\<close> is the wrapping addition of the word type.
\<close>

definition Allocate ::
  "'w::len OwnerIdConsts \<Rightarrow> 'w ItemOwnerIdAllocator \<Rightarrow> 'w word \<times> 'w ItemOwnerIdAllocator" where
  "Allocate c s =
     (case free_ids s of
        allocated_id # rest \<Rightarrow> (allocated_id, s\<lparr>free_ids := rest\<rparr>)
      | [] \<Rightarrow>
          if has_wrapped_around s then (kUnknownItemId c, s)
          else
            (let allocated_id = next_item_owner_id s;
                 s1 = s\<lparr>next_item_owner_id := next_item_owner_id s + 1\<rparr>;
                 s2 = (if allocated_id = kMaxOwnerItemId c
                       then s1\<lparr>has_wrapped_around := True\<rparr> else s1)
             in (allocated_id, s2)))"

text \<open>
  \<^verbatim>\<open>Free(ItemOwnerId* id)\<close>: the value left in the caller's variable \<^verbatim>\<open>*id\<close> and the
  allocator afterwards.
\<close>

definition Free ::
  "'w::len OwnerIdConsts \<Rightarrow> 'w ItemOwnerIdAllocator \<Rightarrow> 'w word \<Rightarrow> 'w word \<times> 'w ItemOwnerIdAllocator" where
  "Free c s i =
     (if i \<noteq> kUnknownItemId c then
        (kUnknownItemId c,
         if length (free_ids s) < kMaxFreeItemOwnersIdListSize c
         then s\<lparr>free_ids := free_ids s @ [i]\<rparr> else s)
      else (i, s))"

text \<open>
  The cache owns one allocator (\<^verbatim>\<open>owner_id_allocator_\<close>); \<^verbatim>\<open>GetNextItemOwnerId\<close> and
  \<^verbatim>\<open>DiscardItemOwnerId\<close> forward to it. The other members of the class are not
  touched by these two functions and stay in the record's extension.
\<close>

record (overloaded) 'w Cache =
  owner_id_allocator :: "'w ItemOwnerIdAllocator"

definition GetNextItemOwnerId ::
  "'w::len OwnerIdConsts \<Rightarrow> 'w Cache \<Rightarrow> 'w word \<times> 'w Cache" where
  "GetNextItemOwnerId c cache =
     (case Allocate c (owner_id_allocator cache) of
        (r, a) \<Rightarrow> (r, cache\<lparr>owner_id_allocator := a\<rparr>))"

definition DiscardItemOwnerId ::
  "'w::len OwnerIdConsts \<Rightarrow> 'w Cache \<Rightarrow> 'w word \<Rightarrow> 'w word \<times> 'w Cache" where
  "DiscardItemOwnerId c cache item_owner_id =
     (case Free c (owner_id_allocator cache) item_owner_id of
        (v, a) \<Rightarrow> (v, cache\<lparr>owner_id_allocator := a\<rparr>))"

subsection \<open>Call sequences\<close>

text \<open>
  Modelled from the spec: the member initialisers of the class are in the header, which
  is not part of the translation unit. The specification's allocator "with no prior
  frees" has an empty free list and an unused counter: the counter stands at the
  parameter \<open>initial_next_item_owner_id\<close> and the wrap-around flag is clear.
\<close>

definition fresh_allocator :: "'w::len OwnerIdConsts \<Rightarrow> 'w ItemOwnerIdAllocator" where
  "fresh_allocator c =
     \<lparr>free_ids = [], next_item_owner_id = initial_next_item_owner_id c,
      has_wrapped_around = False\<rparr>"

datatype 'i op = OpAllocate | OpFree 'i

text \<open>
  A client holds the ids it was given and has not freed. An \<open>Allocate\<close> that returns
  the sentinel gave the client nothing to hold.
\<close>

definition hold :: "'w::len OwnerIdConsts \<Rightarrow> 'w word \<Rightarrow> 'w word set \<Rightarrow> 'w word set" where
  "hold c r live = (if r = kUnknownItemId c then live else insert r live)"

text \<open>The allocator and the set of live ids after a sequence of calls.\<close>

fun run ::
  "'w::len OwnerIdConsts \<Rightarrow> 'w ItemOwnerIdAllocator \<Rightarrow> 'w word set \<Rightarrow> 'w word op list
     \<Rightarrow> 'w ItemOwnerIdAllocator \<times> 'w word set" where
  "run c s live [] = (s, live)"
| "run c s live (OpAllocate # ops) =
     run c (snd (Allocate c s)) (hold c (fst (Allocate c s)) live) ops"
| "run c s live (OpFree i # ops) = run c (snd (Free c s i)) (live - {i}) ops"

text \<open>The values the \<open>Allocate\<close> calls of a sequence return, in call order.\<close>

fun returned ::
  "'w::len OwnerIdConsts \<Rightarrow> 'w ItemOwnerIdAllocator \<Rightarrow> 'w word op list \<Rightarrow> 'w word list" where
  "returned c s [] = []"
| "returned c s (OpAllocate # ops) = fst (Allocate c s) # returned c (snd (Allocate c s)) ops"
| "returned c s (OpFree i # ops) = returned c (snd (Free c s i)) ops"

text \<open>
  A disciplined client frees only what it holds, each allocation once (freeing a variable
  that already carries the sentinel is allowed: \<open>Free\<close> ignores it).
\<close>

fun disciplined ::
  "'w::len OwnerIdConsts \<Rightarrow> 'w ItemOwnerIdAllocator \<Rightarrow> 'w word set \<Rightarrow> 'w word op list \<Rightarrow> bool" where
  "disciplined c s live [] = True"
| "disciplined c s live (OpAllocate # ops) =
     disciplined c (snd (Allocate c s)) (hold c (fst (Allocate c s)) live) ops"
| "disciplined c s live (OpFree i # ops) =
     ((i = kUnknownItemId c \<or> i \<in> live) \<and> disciplined c (snd (Free c s i)) (live - {i}) ops)"



subsection \<open>The invariant of the allocator\<close>

text \<open>
  The counter walks from its initial value to \<open>kMaxOwnerItemId\<close>; distances are measured
  from the initial value, in the arithmetic of the word type, so that nothing has to be
  assumed about where the two constants lie. An id is issued when the counter has
  passed it.
\<close>

definition counter_offset :: "'w::len OwnerIdConsts \<Rightarrow> 'w word \<Rightarrow> 'w word" where
  "counter_offset c x = x - initial_next_item_owner_id c"

definition issued :: "'w::len OwnerIdConsts \<Rightarrow> 'w ItemOwnerIdAllocator \<Rightarrow> 'w word \<Rightarrow> bool" where
  "issued c s x \<longleftrightarrow>
     counter_offset c x \<le> counter_offset c (kMaxOwnerItemId c) \<and>
     (has_wrapped_around s \<or> counter_offset c x < counter_offset c (next_item_owner_id s))"

definition alloc_inv ::
  "'w::len OwnerIdConsts \<Rightarrow> 'w ItemOwnerIdAllocator \<Rightarrow> 'w word set \<Rightarrow> bool" where
  "alloc_inv c s live \<longleftrightarrow>
     distinct (free_ids s) \<and> set (free_ids s) \<inter> live = {} \<and> kUnknownItemId c \<notin> live \<and>
     (\<forall>x \<in> set (free_ids s) \<union> live. issued c s x) \<and>
     (\<not> has_wrapped_around s \<longrightarrow>
        counter_offset c (next_item_owner_id s) \<le> counter_offset c (kMaxOwnerItemId c))"

subsection \<open>The allocation failure as the specification words it\<close>

text \<open>
  The specification describes the failing \<open>Allocate\<close> as an error of kind
  \<^verbatim>\<open>ResourceExhausted\<close> signalled next to the returned sentinel. \<open>Allocate_as_specified\<close>
  follows those words: an outcome is the signalled error, if any, and the returned id.
  \<open>Allocate_observed\<close> is what a caller of the C++ function observes: the function
  returns an \<^verbatim>\<open>ItemOwnerId\<close> by value, has no other output and raises nothing, so the
  error component is empty on every path.
\<close>

datatype AllocationError = ResourceExhausted

definition Allocate_as_specified ::
  "'w::len OwnerIdConsts \<Rightarrow> 'w ItemOwnerIdAllocator
     \<Rightarrow> (AllocationError option \<times> 'w word) \<times> 'w ItemOwnerIdAllocator" where
  "Allocate_as_specified c s =
     (case free_ids s of
        front # rest \<Rightarrow> ((None, front), s\<lparr>free_ids := rest\<rparr>)
      | [] \<Rightarrow>
          if \<not> has_wrapped_around s then
            ((None, next_item_owner_id s),
             s\<lparr>next_item_owner_id := next_item_owner_id s + 1,
               has_wrapped_around := (next_item_owner_id s = kMaxOwnerItemId c)\<rparr>)
          else ((Some ResourceExhausted, kUnknownItemId c), s))"

definition Allocate_observed ::
  "'w::len OwnerIdConsts \<Rightarrow> 'w ItemOwnerIdAllocator
     \<Rightarrow> (AllocationError option \<times> 'w word) \<times> 'w ItemOwnerIdAllocator" where
  "Allocate_observed c s = ((None, fst (Allocate c s)), snd (Allocate c s))"

subsection \<open>An instance of the parameters\<close>

text \<open>
  Sixteen-bit ids with sentinel 0, a counter that runs from 1 to 65534 and at most 10000
  recycled ids on the free list. The theorems below hold for every choice of the
  parameters; this one is used to run them on concrete call sequences.
\<close>

definition sample_consts :: "16 OwnerIdConsts" where
  "sample_consts =
     \<lparr>kUnknownItemId = 0, kMaxOwnerItemId = 65534,
      kMaxFreeItemOwnersIdListSize = 10000, initial_next_item_owner_id = 1\<rparr>"

section \<open>Construction from a configuration string (cache/cache.cc)\<close>

subsection \<open>Status\<close>

text \<open>
  \<^verbatim>\<open>Status\<close> is declared in a header. The translation unit builds the default status
  (success) and \<^verbatim>\<open>Status::NotSupported(msg, msg2)\<close> and asks \<^verbatim>\<open>ok()\<close>; every other
  status reaches it from a collaborator, whatever its code.
\<close>

datatype Code = kOk | kNotSupported | kInvalidArgument | kOtherCode nat

datatype Status = Status (code: Code) (msg: string) (msg2: string)

definition Status_OK :: Status where
  "Status_OK = Status kOk [] []"

definition Status_NotSupported :: "string \<Rightarrow> string \<Rightarrow> Status" where
  "Status_NotSupported m m2 = Status kNotSupported m m2"

definition ok :: "Status \<Rightarrow> bool" where
  "ok st \<longleftrightarrow> code st = kOk"

subsection \<open>The option tables\<close>

text \<open>
  An entry of a table names a field of the options struct (\<^verbatim>\<open>offsetof(struct S, f)\<close>: the
  struct and the field), the type of its value, and how it is verified and flagged. The
  tables are unordered maps with distinct keys: association lists here.
\<close>

datatype OptionType = kSizeT | kInt | kBoolean | kDouble | kCompressionType | kUInt32T

datatype OptionVerificationType = kNormal

datatype OptionTypeFlags = kMutable

datatype OptionTypeInfo =
  OptionTypeInfo (offset: "string \<times> string") (type: OptionType)
    (verification: OptionVerificationType) (flags: OptionTypeFlags)

definition lru_cache_options_type_info :: "(string \<times> OptionTypeInfo) list" where
  "lru_cache_options_type_info =
     [(''capacity'',
         OptionTypeInfo (''LRUCacheOptions'', ''capacity'') kSizeT kNormal kMutable),
      (''num_shard_bits'',
         OptionTypeInfo (''LRUCacheOptions'', ''num_shard_bits'') kInt kNormal kMutable),
      (''strict_capacity_limit'',
         OptionTypeInfo (''LRUCacheOptions'', ''strict_capacity_limit'') kBoolean kNormal kMutable),
      (''high_pri_pool_ratio'',
         OptionTypeInfo (''LRUCacheOptions'', ''high_pri_pool_ratio'') kDouble kNormal kMutable),
      (''low_pri_pool_ratio'',
         OptionTypeInfo (''LRUCacheOptions'', ''low_pri_pool_ratio'') kDouble kNormal kMutable)]"

definition comp_sec_cache_options_type_info :: "(string \<times> OptionTypeInfo) list" where
  "comp_sec_cache_options_type_info =
     [(''capacity'',
         OptionTypeInfo (''CompressedSecondaryCacheOptions'', ''capacity'')
           kSizeT kNormal kMutable),
      (''num_shard_bits'',
         OptionTypeInfo (''CompressedSecondaryCacheOptions'', ''num_shard_bits'')
           kInt kNormal kMutable),
      (''compression_type'',
         OptionTypeInfo (''CompressedSecondaryCacheOptions'', ''compression_type'')
           kCompressionType kNormal kMutable),
      (''compress_format_version'',
         OptionTypeInfo (''CompressedSecondaryCacheOptions'', ''compress_format_version'')
           kUInt32T kNormal kMutable),
      (''enable_custom_split_merge'',
         OptionTypeInfo (''CompressedSecondaryCacheOptions'', ''enable_custom_split_merge'')
           kBoolean kNormal kMutable)]"

subsection \<open>Searching a string\<close>

text \<open>
  \<^verbatim>\<open>std::string::find\<close> returns the first position at which the character, or the
  string, occurs, and \<^verbatim>\<open>npos\<close> (\<open>None\<close> here) when there is none.
\<close>

fun find_char :: "string \<Rightarrow> char \<Rightarrow> nat option" where
  "find_char [] ch = None"
| "find_char (x # xs) ch = (if x = ch then Some 0 else map_option Suc (find_char xs ch))"

fun find_str :: "string \<Rightarrow> string \<Rightarrow> nat option" where
  "find_str [] p = (if p = [] then Some 0 else None)"
| "find_str (x # xs) p =
     (if prefix p (x # xs) then Some 0 else map_option Suc (find_str xs p))"

subsection \<open>The collaborators\<close>

text \<open>
  The two functions call into code of other translation units: the size parser, the
  struct parser of the options framework, the constructors of the LRU cache and of the
  compressed secondary cache, and the object registry. They are parameters of the
  model. A shared pointer is an \<open>option\<close>: \<open>None\<close> is the null pointer. The struct parser
  fills a default-constructed options struct, which is a parameter as well.
\<close>

record ('cfg, 'lo, 'so, 'cache, 'sec) Collaborators =
  ParseSizeT :: "string \<Rightarrow> 64 word"
  NewLRUCache_capacity :: "64 word \<Rightarrow> 'cache option"
  NewLRUCache_options :: "'lo \<Rightarrow> 'cache option"
  default_LRUCacheOptions :: "'lo"
  ParseStruct_LRUCacheOptions ::
    "'cfg \<Rightarrow> string \<Rightarrow> (string \<times> OptionTypeInfo) list \<Rightarrow> string \<Rightarrow> string \<Rightarrow> 'lo
       \<Rightarrow> Status \<times> 'lo"
  default_CompressedSecondaryCacheOptions :: "'so"
  ParseStruct_CompressedSecondaryCacheOptions ::
    "'cfg \<Rightarrow> string \<Rightarrow> (string \<times> OptionTypeInfo) list \<Rightarrow> string \<Rightarrow> string \<Rightarrow> 'so
       \<Rightarrow> Status \<times> 'so"
  NewCompressedSecondaryCache :: "'so \<Rightarrow> 'sec option"
  LoadSharedObject :: "'cfg \<Rightarrow> string \<Rightarrow> 'sec option \<Rightarrow> Status \<times> 'sec option"

subsection \<open>The two constructors\<close>

text \<open>
  Both return the status and the value of \<^verbatim>\<open>*result\<close> afterwards. The build profile
  \<^verbatim>\<open>ROCKSDB_LITE\<close> is the boolean \<open>lite\<close>.
\<close>

definition SecondaryCache_CreateFromString ::
  "('cfg, 'lo, 'so, 'cache, 'sec) Collaborators \<Rightarrow> bool \<Rightarrow> 'cfg \<Rightarrow> string \<Rightarrow> 'sec option
     \<Rightarrow> Status \<times> 'sec option" where
  "SecondaryCache_CreateFromString env lite config_options value result =
     (if find_str value ''compressed_secondary_cache://'' = Some 0 then
        (let args = drop (length ''compressed_secondary_cache://'') value;
             (status, sec_cache) =
               (if \<not> lite then
                  (case ParseStruct_CompressedSecondaryCacheOptions env config_options []
                          comp_sec_cache_options_type_info [] args
                          (default_CompressedSecondaryCacheOptions env) of
                     (st, sec_cache_opts) \<Rightarrow>
                       if ok st then (st, NewCompressedSecondaryCache env sec_cache_opts)
                       else (st, None))
                else
                  (Status_NotSupported
                     ''Cannot load compressed secondary cache in LITE mode '' args, None))
         in if ok status then (status, sec_cache) else (status, result))
      else LoadSharedObject env config_options value result)"

definition Cache_CreateFromString ::
  "('cfg, 'lo, 'so, 'cache, 'sec) Collaborators \<Rightarrow> bool \<Rightarrow> 'cfg \<Rightarrow> string \<Rightarrow> 'cache option
     \<Rightarrow> Status \<times> 'cache option" where
  "Cache_CreateFromString env lite config_options value result =
     (let (status, cache) =
            (if find_char value CHR ''='' = None then
               (Status_OK, NewLRUCache_capacity env (ParseSizeT env value))
             else if \<not> lite then
               (case ParseStruct_LRUCacheOptions env config_options []
                       lru_cache_options_type_info [] value (default_LRUCacheOptions env) of
                  (st, cache_opts) \<Rightarrow>
                    if ok st then (st, NewLRUCache_options env cache_opts) else (st, None))
             else (Status_NotSupported ''Cannot load cache in LITE mode '' value, None))
      in if ok status then (status, cache) else (status, result))"

subsection \<open>The helpers behind a plain capacity\<close>

text \<open>
  The options struct of the LRU cache, with the fields its table names (any further
  field is in the record's extension). The two ratios are \<^verbatim>\<open>double\<close>s; nothing is
  computed with them here, so their type is left open.
\<close>

record 'd LRUCacheOptions =
  capacity :: "64 word"
  num_shard_bits :: int
  strict_capacity_limit :: bool
  high_pri_pool_ratio :: 'd
  low_pri_pool_ratio :: 'd

text \<open>
  Modelled from the spec: \<^verbatim>\<open>ParseSizeT\<close> (util/string_util) is not part of the
  translation unit. The specification says a string without \<^verbatim>\<open>=\<close> "is parsed as a
  plain byte-size capacity": the digits of the string are read as a decimal number.
\<close>

definition digit_value :: "char \<Rightarrow> nat" where
  "digit_value ch = of_char ch - of_char CHR ''0''"

definition ParseSizeT_spec :: "string \<Rightarrow> 64 word" where
  "ParseSizeT_spec value = of_nat (foldl (\<lambda>n ch. 10 * n + digit_value ch) 0 value)"

text \<open>
  Modelled from the spec: \<^verbatim>\<open>NewLRUCache\<close> (cache/lru_cache) is not part of the
  translation unit. The specification says a plain capacity "yields a default-shaped
  cache (default shard-bit count, default pool ratios, strict limit default)": the
  cache built is described by the default options with the capacity set. The default
  options are declared in a header and are a parameter.
\<close>

definition NewLRUCache_spec :: "'d LRUCacheOptions \<Rightarrow> 64 word \<Rightarrow> 'd LRUCacheOptions option" where
  "NewLRUCache_spec defaults cap = Some (defaults\<lparr>capacity := cap\<rparr>)"

subsection \<open>An instance of the collaborators\<close>

text \<open>
  A small environment on which the theorems below are run: the two helpers above, a
  struct parser that accepts one string for each struct, constructors that describe the
  object by its options, and a registry that knows one name. The theorems hold for
  every environment.
\<close>

definition sample_defaults :: "unit LRUCacheOptions" where
  "sample_defaults =
     \<lparr>capacity = 0, num_shard_bits = - 1, strict_capacity_limit = False,
      high_pri_pool_ratio = (), low_pri_pool_ratio = ()\<rparr>"

definition sample_collaborators ::
  "(unit, unit LRUCacheOptions, nat, unit LRUCacheOptions, nat) Collaborators" where
  "sample_collaborators =
     \<lparr>ParseSizeT = ParseSizeT_spec,
      NewLRUCache_capacity = NewLRUCache_spec sample_defaults,
      NewLRUCache_options = Some,
      default_LRUCacheOptions = sample_defaults,
      ParseStruct_LRUCacheOptions =
        (\<lambda>cfg opt_name info struct_name v opts.
           if v = ''capacity=2048'' then (Status_OK, opts\<lparr>capacity := 2048\<rparr>)
           else (Status kInvalidArgument v [], opts)),
      default_CompressedSecondaryCacheOptions = 0,
      ParseStruct_CompressedSecondaryCacheOptions =
        (\<lambda>cfg opt_name info struct_name v opts.
           if v = ''capacity=4096'' then (Status_OK, 4096)
           else (Status kInvalidArgument v [], opts)),
      NewCompressedSecondaryCache = Some,
      LoadSharedObject =
        (\<lambda>cfg v r. if v = ''my_cache'' then (Status_OK, Some 7)
                   else (Status kInvalidArgument v [], r))\<rparr>"

text \<open>
  Two variations of it: a registry that stores an object into the caller's result and
  then reports an error, and a cache constructor that answers with the null pointer.
\<close>

definition eager_registry_collaborators ::
  "(unit, unit LRUCacheOptions, nat, unit LRUCacheOptions, nat) Collaborators" where
  "eager_registry_collaborators =
     sample_collaborators
       \<lparr>LoadSharedObject := (\<lambda>cfg v r. (Status kInvalidArgument v [], Some 99))\<rparr>"

definition null_constructor_collaborators ::
  "(unit, unit LRUCacheOptions, nat, unit LRUCacheOptions, nat) Collaborators" where
  "null_constructor_collaborators =
     sample_collaborators\<lparr>NewLRUCache_options := (\<lambda>cache_opts. None)\<rparr>"

section \<open>Properties of the allocator\<close>

subsection \<open>The steps, case by case\<close>

lemma counter_offset_inj: "counter_offset c x = counter_offset c y \<longleftrightarrow> x = y"
  by (simp add: counter_offset_def)

lemma counter_offset_succ: "counter_offset c (x + 1) = counter_offset c x + 1"
  by (simp add: counter_offset_def)

lemma alloc_inv_fresh: "alloc_inv c (fresh_allocator c) {}"
  by (simp add: alloc_inv_def fresh_allocator_def counter_offset_def)

lemma Allocate_cases:
  obtains (pop) r rest where "free_ids s = r # rest" "Allocate c s = (r, s\<lparr>free_ids := rest\<rparr>)"
  | (exhausted) "free_ids s = []" "has_wrapped_around s" "Allocate c s = (kUnknownItemId c, s)"
  | (last) "free_ids s = []" "\<not> has_wrapped_around s" "next_item_owner_id s = kMaxOwnerItemId c"
      "Allocate c s = (next_item_owner_id s,
         s\<lparr>next_item_owner_id := next_item_owner_id s + 1, has_wrapped_around := True\<rparr>)"
  | (count) "free_ids s = []" "\<not> has_wrapped_around s" "next_item_owner_id s \<noteq> kMaxOwnerItemId c"
      "Allocate c s = (next_item_owner_id s, s\<lparr>next_item_owner_id := next_item_owner_id s + 1\<rparr>)"
  by (cases "free_ids s"; cases "has_wrapped_around s";
      cases "next_item_owner_id s = kMaxOwnerItemId c") (auto simp: Allocate_def Let_def)


lemma issued_Allocate:
  assumes "issued c s x" "\<not> has_wrapped_around s \<longrightarrow>
        counter_offset c (next_item_owner_id s) \<le> counter_offset c (kMaxOwnerItemId c)"
  shows "issued c (snd (Allocate c s)) x"
proof (cases rule: Allocate_cases [of s c])
  case (pop r rest)
  with assms show ?thesis by (simp add: issued_def)
next
  case exhausted
  with assms show ?thesis by simp
next
  case last
  with assms show ?thesis by (simp add: issued_def)
next
  case count
  then have lt: "counter_offset c (next_item_owner_id s) < counter_offset c (kMaxOwnerItemId c)"
    using assms(2) by (simp add: order_less_le counter_offset_inj)
  have "counter_offset c x < counter_offset c (next_item_owner_id s) + 1"
    using assms(1) count(2) lt
    by (metis issued_def less_imp_le interval_class.inc_less_eq_imp_less leI leD)
  with assms count show ?thesis by (simp add: issued_def counter_offset_succ)
qed


lemma next_issued_after_Allocate:
  assumes "free_ids s = []" "\<not> has_wrapped_around s"
    "counter_offset c (next_item_owner_id s) \<le> counter_offset c (kMaxOwnerItemId c)"
  shows "issued c (snd (Allocate c s)) (next_item_owner_id s)"
proof (cases rule: Allocate_cases [of s c])
  case (pop r rest)
  with assms show ?thesis by simp
next
  case exhausted
  with assms show ?thesis by simp
next
  case last
  with assms show ?thesis by (simp add: issued_def)
next
  case count
  then have "counter_offset c (next_item_owner_id s) < counter_offset c (kMaxOwnerItemId c)"
    using assms(3) by (simp add: order_less_le counter_offset_inj)
  then have "counter_offset c (next_item_owner_id s) < counter_offset c (next_item_owner_id s) + 1"
    by (metis interval_class.inc_less_eq_imp_less order_refl)
  with assms count show ?thesis by (simp add: issued_def counter_offset_succ)
qed

lemma counter_bound_Allocate:
  assumes "\<not> has_wrapped_around s \<longrightarrow>
        counter_offset c (next_item_owner_id s) \<le> counter_offset c (kMaxOwnerItemId c)"
    and "\<not> has_wrapped_around (snd (Allocate c s))"
  shows "counter_offset c (next_item_owner_id (snd (Allocate c s))) \<le> counter_offset c (kMaxOwnerItemId c)"
proof (cases rule: Allocate_cases [of s c])
  case (pop r rest)
  with assms show ?thesis by simp
next
  case exhausted
  with assms show ?thesis by simp
next
  case last
  with assms show ?thesis by simp
next
  case count
  then have "counter_offset c (next_item_owner_id s) < counter_offset c (kMaxOwnerItemId c)"
    using assms(1) by (simp add: order_less_le counter_offset_inj)
  then have "counter_offset c (next_item_owner_id s) + 1 \<le> counter_offset c (kMaxOwnerItemId c)"
    by (rule inc_le)
  with count show ?thesis by (simp add: counter_offset_succ)
qed

lemma alloc_inv_Allocate:
  assumes "alloc_inv c s live"
  shows "alloc_inv c (snd (Allocate c s)) (hold c (fst (Allocate c s)) live)"
proof -
  let ?r = "fst (Allocate c s)" and ?s' = "snd (Allocate c s)"
  from assms have bound: "\<not> has_wrapped_around s \<longrightarrow>
        counter_offset c (next_item_owner_id s) \<le> counter_offset c (kMaxOwnerItemId c)"
    by (simp add: alloc_inv_def)
  have old: "issued c ?s' x" if "x \<in> set (free_ids s) \<union> live" for x
    using assms that bound issued_Allocate [of c s x] by (simp add: alloc_inv_def)
  have new: "issued c ?s' ?r" if "?r \<noteq> kUnknownItemId c"
  proof (cases rule: Allocate_cases [of s c])
    case (pop r rest)
    then show ?thesis using old [of r] by simp
  next
    case exhausted
    with that show ?thesis by simp
  next
    case last
    then show ?thesis using next_issued_after_Allocate [of s c] bound by simp
  next
    case count
    then show ?thesis using next_issued_after_Allocate [of s c] bound by simp
  qed
  have fl: "distinct (free_ids ?s') \<and> set (free_ids ?s') \<subseteq> set (free_ids s) \<and>
      ?r \<notin> set (free_ids ?s')"
    using assms by (cases rule: Allocate_cases [of s c]) (auto simp: alloc_inv_def)
  have "set (free_ids ?s') \<inter> hold c ?r live = {}"
    using fl assms by (auto simp: hold_def alloc_inv_def)
  moreover have "kUnknownItemId c \<notin> hold c ?r live"
    using assms by (simp add: hold_def alloc_inv_def)
  moreover have "\<forall>x \<in> set (free_ids ?s') \<union> hold c ?r live. issued c ?s' x"
    using fl old new by (auto simp: hold_def split: if_splits)
  moreover have "\<not> has_wrapped_around ?s' \<longrightarrow>
        counter_offset c (next_item_owner_id ?s') \<le> counter_offset c (kMaxOwnerItemId c)"
    using counter_bound_Allocate [OF bound] by blast
  ultimately show ?thesis using fl by (simp add: alloc_inv_def)
qed

lemma issued_Free: "issued c (snd (Free c s i)) x = issued c s x"
  by (simp add: Free_def issued_def)

lemma free_ids_Free:
  "free_ids (snd (Free c s i)) =
     (if i \<noteq> kUnknownItemId c \<and> length (free_ids s) < kMaxFreeItemOwnersIdListSize c
      then free_ids s @ [i] else free_ids s)"
  by (simp add: Free_def)

lemma alloc_inv_Free:
  assumes "alloc_inv c s live" "i = kUnknownItemId c \<or> i \<in> live"
  shows "alloc_inv c (snd (Free c s i)) (live - {i})"
proof -
  have flags: "has_wrapped_around (snd (Free c s i)) = has_wrapped_around s"
    "next_item_owner_id (snd (Free c s i)) = next_item_owner_id s"
    by (simp_all add: Free_def)
  show ?thesis
    unfolding alloc_inv_def issued_Free flags free_ids_Free
    using assms by (auto simp: alloc_inv_def)
qed



lemma Allocate_result_origin:
  assumes "alloc_inv c s live"
  shows "fst (Allocate c s) \<in> set (free_ids s) \<or> fst (Allocate c s) = kUnknownItemId c \<or>
         \<not> issued c s (fst (Allocate c s))"
proof (cases rule: Allocate_cases [of s c])
  case (pop r rest)
  then show ?thesis by simp
next
  case exhausted
  then show ?thesis by simp
next
  case last
  then show ?thesis by (simp add: issued_def)
next
  case count
  then show ?thesis by (simp add: issued_def)
qed

lemma free_ids_Allocate_subset: "set (free_ids (snd (Allocate c s))) \<subseteq> set (free_ids s)"
  by (cases rule: Allocate_cases [of s c]) auto

lemma retired_id_never_returned:
  "alloc_inv c s live \<Longrightarrow> disciplined c s live ops \<Longrightarrow> issued c s x \<Longrightarrow>
   x \<notin> set (free_ids s) \<Longrightarrow> x \<notin> live \<Longrightarrow> x \<noteq> kUnknownItemId c \<Longrightarrow>
   x \<notin> set (returned c s ops)"
proof (induction ops arbitrary: s live)
  case Nil
  show ?case by simp
next
  case (Cons a ops)
  have bound: "\<not> has_wrapped_around s \<longrightarrow>
        counter_offset c (next_item_owner_id s) \<le> counter_offset c (kMaxOwnerItemId c)"
    using Cons.prems(1) by (simp add: alloc_inv_def)
  show ?case
  proof (cases a)
    case OpAllocate
    have ne: "fst (Allocate c s) \<noteq> x"
      using Allocate_result_origin [OF Cons.prems(1)] Cons.prems(3,4,6) by auto
    have "x \<notin> set (returned c (snd (Allocate c s)) ops)"
    proof (rule Cons.IH)
      show "alloc_inv c (snd (Allocate c s)) (hold c (fst (Allocate c s)) live)"
        by (rule alloc_inv_Allocate [OF Cons.prems(1)])
      show "disciplined c (snd (Allocate c s)) (hold c (fst (Allocate c s)) live) ops"
        using Cons.prems(2) OpAllocate by simp
      show "issued c (snd (Allocate c s)) x"
        using issued_Allocate [OF Cons.prems(3) bound] .
      show "x \<notin> set (free_ids (snd (Allocate c s)))"
        using free_ids_Allocate_subset [of c s] Cons.prems(4) by blast
      show "x \<notin> hold c (fst (Allocate c s)) live"
        using ne Cons.prems(5) by (simp add: hold_def)
      show "x \<noteq> kUnknownItemId c" by (rule Cons.prems(6))
    qed
    with ne OpAllocate show ?thesis by simp
  next
    case (OpFree i)
    then have i: "i = kUnknownItemId c \<or> i \<in> live"
      and rest: "disciplined c (snd (Free c s i)) (live - {i}) ops"
      using Cons.prems(2) by simp_all
    have "x \<notin> set (returned c (snd (Free c s i)) ops)"
    proof (rule Cons.IH)
      show "alloc_inv c (snd (Free c s i)) (live - {i})"
        by (rule alloc_inv_Free [OF Cons.prems(1) i])
      show "disciplined c (snd (Free c s i)) (live - {i}) ops" by (rule rest)
      show "issued c (snd (Free c s i)) x" using Cons.prems(3) by (simp add: issued_Free)
      show "x \<notin> set (free_ids (snd (Free c s i)))"
        using Cons.prems(4,5,6) i by (auto simp: free_ids_Free)
      show "x \<notin> live - {i}" using Cons.prems(5) by simp
      show "x \<noteq> kUnknownItemId c" by (rule Cons.prems(6))
    qed
    with OpFree show ?thesis by simp
  qed
qed


lemma run_append:
  "run c s live (xs @ ys) = run c (fst (run c s live xs)) (snd (run c s live xs)) ys"
proof (induction xs arbitrary: s live)
  case Nil
  show ?case by simp
next
  case (Cons a xs)
  then show ?case by (cases a) simp_all
qed

lemma disciplined_append:
  "disciplined c s live (xs @ ys) \<longleftrightarrow>
     disciplined c s live xs \<and>
     disciplined c (fst (run c s live xs)) (snd (run c s live xs)) ys"
proof (induction xs arbitrary: s live)
  case Nil
  show ?case by simp
next
  case (Cons a xs)
  then show ?case by (cases a) simp_all
qed

lemma alloc_inv_run:
  "alloc_inv c s live \<Longrightarrow> disciplined c s live ops \<Longrightarrow>
   alloc_inv c (fst (run c s live ops)) (snd (run c s live ops))"
proof (induction ops arbitrary: s live)
  case Nil
  then show ?case by simp
next
  case (Cons a ops)
  then show ?case
    by (cases a) (simp_all add: alloc_inv_Allocate alloc_inv_Free)
qed


subsection \<open>Live ids are never handed out again\<close>




subsection \<open>Three allocations, then reuse of the freed one\<close>

text \<open>
  Claim C2. On a new allocator, three \<open>Allocate\<close> calls return the counter's initial
  value and its two successors, strictly increasing; after \<open>Free\<close> of the middle one the
  fourth \<open>Allocate\<close> returns that id again and leaves the counter where the third call
  left it. The header's constants enter through three conditions: the counter has room
  for three ids below \<open>kMaxOwnerItemId\<close>, the middle id is not the sentinel, and the
  free list may hold at least one id.
\<close>

theorem three_allocations_then_reuse:
  assumes room: "unat (initial_next_item_owner_id c) + 2 \<le> unat (kMaxOwnerItemId c)"
    and mid: "initial_next_item_owner_id c + 1 \<noteq> kUnknownItemId c"
    and cap: "0 < kMaxFreeItemOwnersIdListSize c"
  shows "returned c (fresh_allocator c) [OpAllocate, OpAllocate, OpAllocate] =
           [initial_next_item_owner_id c, initial_next_item_owner_id c + 1,
            initial_next_item_owner_id c + 2] \<and>
         initial_next_item_owner_id c < initial_next_item_owner_id c + 1 \<and>
         initial_next_item_owner_id c + 1 < initial_next_item_owner_id c + 2 \<and>
         returned c (fresh_allocator c)
           [OpAllocate, OpAllocate, OpAllocate, OpFree (initial_next_item_owner_id c + 1),
            OpAllocate] =
           [initial_next_item_owner_id c, initial_next_item_owner_id c + 1,
            initial_next_item_owner_id c + 2, initial_next_item_owner_id c + 1] \<and>
         next_item_owner_id (fst (run c (fresh_allocator c) {}
           [OpAllocate, OpAllocate, OpAllocate, OpFree (initial_next_item_owner_id c + 1),
            OpAllocate])) =
         next_item_owner_id (fst (run c (fresh_allocator c) {}
           [OpAllocate, OpAllocate, OpAllocate]))"
proof -
  let ?n = "initial_next_item_owner_id c"
  have "unat (kMaxOwnerItemId c) < 2 ^ LENGTH('a)"
    by (rule unsigned_less)
  with room have lt: "unat ?n + 2 < 2 ^ LENGTH('a)"
    by linarith
  have two: "?n + 1 + 1 = ?n + 2" by simp
  from lt have u1: "unat (?n + 1) = unat ?n + 1"
    using unat_add_lem [of ?n 1] by simp
  with lt have "unat (?n + 1 + 1) = unat ?n + 2"
    using unat_add_lem [of "?n + 1" 1] by simp
  then have u2: "unat (?n + 2) = unat ?n + 2"
    by (simp only: two)
  have ne0: "?n \<noteq> kMaxOwnerItemId c"
    using room by auto
  have ne1: "?n + 1 \<noteq> kMaxOwnerItemId c"
    using room u1 by auto
  have inc: "?n < ?n + 1" "?n + 1 < ?n + 2"
    using u1 u2 by (simp_all add: word_less_nat_alt)
  let ?s1 = "\<lparr>free_ids = [], next_item_owner_id = ?n + 1, has_wrapped_around = False\<rparr>"
  let ?s2 = "\<lparr>free_ids = [], next_item_owner_id = ?n + 2, has_wrapped_around = False\<rparr>"
  let ?s3 = "snd (Allocate c ?s2)"
  have a1: "Allocate c (fresh_allocator c) = (?n, ?s1)"
    using ne0 by (simp add: fresh_allocator_def Allocate_def Let_def)
  have a2: "Allocate c ?s1 = (?n + 1, ?s2)"
    using ne1 by (simp add: Allocate_def Let_def two)
  have a3: "fst (Allocate c ?s2) = ?n + 2" "free_ids ?s3 = []"
    by (simp_all add: Allocate_def Let_def)
  have f: "snd (Free c ?s3 (?n + 1)) = ?s3\<lparr>free_ids := [?n + 1]\<rparr>"
    using mid cap a3(2) by (simp add: Free_def)
  have a4: "Allocate c (?s3\<lparr>free_ids := [?n + 1]\<rparr>) = (?n + 1, ?s3\<lparr>free_ids := []\<rparr>)"
    by (simp add: Allocate_def)
  show ?thesis
    by (simp add: a1 a2 a3 f a4 inc)
qed

theorem three_allocations_then_reuse_witness:
  "unat (initial_next_item_owner_id sample_consts) + 2 \<le> unat (kMaxOwnerItemId sample_consts) \<and>
   initial_next_item_owner_id sample_consts + 1 \<noteq> kUnknownItemId sample_consts \<and>
   0 < kMaxFreeItemOwnersIdListSize sample_consts \<and>
   returned sample_consts (fresh_allocator sample_consts)
     [OpAllocate, OpAllocate, OpAllocate] = [1, 2, 3] \<and>
   returned sample_consts (fresh_allocator sample_consts)
     [OpAllocate, OpAllocate, OpAllocate, OpFree 2, OpAllocate] = [1, 2, 3, 2]"
proof -
  have room: "unat (initial_next_item_owner_id sample_consts) + 2
      \<le> unat (kMaxOwnerItemId sample_consts)"
    and mid: "initial_next_item_owner_id sample_consts + 1 \<noteq> kUnknownItemId sample_consts"
    and cap: "0 < kMaxFreeItemOwnersIdListSize sample_consts"
    by (simp_all add: sample_consts_def)
  have init: "initial_next_item_owner_id sample_consts = 1"
    by (simp add: sample_consts_def)
  from three_allocations_then_reuse [OF room mid cap] room mid cap show ?thesis
    unfolding init by simp
qed

subsection \<open>Allocation with a non-empty free list\<close>

text \<open>
  Claim C3. When the free list is not empty, \<open>Allocate\<close> returns its front entry, removes
  exactly that entry, and leaves the next-id counter and the wrap-around flag as they
  were; whenever a call does move the counter, the free list was empty.
\<close>

theorem Allocate_pops_front:
  "(free_ids s \<noteq> [] \<longrightarrow>
      fst (Allocate c s) = hd (free_ids s) \<and>
      free_ids (snd (Allocate c s)) = tl (free_ids s) \<and>
      next_item_owner_id (snd (Allocate c s)) = next_item_owner_id s \<and>
      has_wrapped_around (snd (Allocate c s)) = has_wrapped_around s) \<and>
   (next_item_owner_id (snd (Allocate c s)) \<noteq> next_item_owner_id s \<longrightarrow> free_ids s = [])"
  by (cases "free_ids s") (simp_all add: Allocate_def)

theorem Allocate_pops_front_witness:
  "free_ids \<lparr>free_ids = [5, 7], next_item_owner_id = 9, has_wrapped_around = False\<rparr> \<noteq> [] \<and>
   Allocate sample_consts
     \<lparr>free_ids = [5, 7], next_item_owner_id = 9, has_wrapped_around = False\<rparr> =
     (5, \<lparr>free_ids = [7], next_item_owner_id = 9, has_wrapped_around = False\<rparr>) \<and>
   next_item_owner_id (snd (Allocate sample_consts (fresh_allocator sample_consts))) \<noteq>
     next_item_owner_id (fresh_allocator sample_consts) \<and>
   free_ids (fresh_allocator sample_consts) = []"
proof -
  let ?s = "\<lparr>free_ids = [5, 7], next_item_owner_id = 9, has_wrapped_around = False\<rparr>
              :: 16 ItemOwnerIdAllocator"
  have ne: "free_ids ?s \<noteq> []" by simp
  have moved: "next_item_owner_id (snd (Allocate sample_consts (fresh_allocator sample_consts)))
      \<noteq> next_item_owner_id (fresh_allocator sample_consts)"
    by (simp add: Allocate_def fresh_allocator_def sample_consts_def)
  have full: "Allocate sample_consts ?s = (fst (Allocate sample_consts ?s),
      \<lparr>free_ids = free_ids (snd (Allocate sample_consts ?s)),
       next_item_owner_id = next_item_owner_id (snd (Allocate sample_consts ?s)),
       has_wrapped_around = has_wrapped_around (snd (Allocate sample_consts ?s))\<rparr>)"
    by (simp add: prod_eq_iff)
  from Allocate_pops_front [of ?s sample_consts]
    Allocate_pops_front [of "fresh_allocator sample_consts" sample_consts] ne moved full
  show ?thesis by simp
qed

subsection \<open>Exhaustion\<close>

text \<open>
  Claim C4, as the claim states it, fails. In the allocator that has used its whole
  counter and has an empty free list, the specified outcome carries the error
  \<open>ResourceExhausted\<close>; the outcome a caller observes is the sentinel and nothing else.
  And while the counter stands at its largest value \<open>kMaxOwnerItemId\<close> without having
  wrapped around, \<open>Allocate\<close> still succeeds: it returns that value and only then marks
  the counter as used up.
\<close>

theorem Allocate_signals_nothing_counterexample:
  "Allocate_observed sample_consts
     \<lparr>free_ids = [], next_item_owner_id = 65535, has_wrapped_around = True\<rparr> =
     ((None, 0), \<lparr>free_ids = [], next_item_owner_id = 65535, has_wrapped_around = True\<rparr>) \<and>
   Allocate_as_specified sample_consts
     \<lparr>free_ids = [], next_item_owner_id = 65535, has_wrapped_around = True\<rparr> =
     ((Some ResourceExhausted, 0),
      \<lparr>free_ids = [], next_item_owner_id = 65535, has_wrapped_around = True\<rparr>) \<and>
   Allocate_observed sample_consts
     \<lparr>free_ids = [], next_item_owner_id = 65535, has_wrapped_around = True\<rparr> \<noteq>
   Allocate_as_specified sample_consts
     \<lparr>free_ids = [], next_item_owner_id = 65535, has_wrapped_around = True\<rparr> \<and>
   Allocate sample_consts
     \<lparr>free_ids = [], next_item_owner_id = kMaxOwnerItemId sample_consts,
      has_wrapped_around = False\<rparr> =
     (65534, \<lparr>free_ids = [], next_item_owner_id = 65535, has_wrapped_around = True\<rparr>)"
  by (simp add: Allocate_observed_def Allocate_as_specified_def Allocate_def sample_consts_def)

text \<open>
  Claim C4, amended. When the counter is used up (\<open>has_wrapped_around\<close>) and the free
  list is empty, \<open>Allocate\<close> returns the sentinel, which is its only sign of failure, and
  changes nothing in the allocator; so does every further \<open>Allocate\<close>, for as long as no
  id other than the sentinel is freed.
\<close>

theorem Allocate_exhausted_returns_sentinel:
  assumes "free_ids s = []" and "has_wrapped_around s"
  shows "Allocate c s = (kUnknownItemId c, s) \<and>
    (\<forall>ops. set ops \<subseteq> {OpAllocate, OpFree (kUnknownItemId c)} \<longrightarrow>
       set (returned c s ops) \<subseteq> {kUnknownItemId c} \<and> fst (run c s live ops) = s)"
proof (intro conjI allI impI)
  show al: "Allocate c s = (kUnknownItemId c, s)"
    using assms by (simp add: Allocate_def)
  have fr: "Free c s (kUnknownItemId c) = (kUnknownItemId c, s)"
    by (simp add: Free_def)
  fix ops :: "'a word op list"
  assume sub: "set ops \<subseteq> {OpAllocate, OpFree (kUnknownItemId c)}"
  then show "set (returned c s ops) \<subseteq> {kUnknownItemId c}"
    by (induction ops) (auto simp: al fr)
  from sub show "fst (run c s live ops) = s"
    by (induction ops arbitrary: live) (auto simp: al fr)
qed

theorem Allocate_exhausted_returns_sentinel_witness:
  "free_ids \<lparr>free_ids = [], next_item_owner_id = 65535, has_wrapped_around = True\<rparr> = [] \<and>
   has_wrapped_around \<lparr>free_ids = [], next_item_owner_id = 65535, has_wrapped_around = True\<rparr> \<and>
   set [OpAllocate, OpFree 0, OpAllocate] \<subseteq> {OpAllocate, OpFree (kUnknownItemId sample_consts)} \<and>
   Allocate sample_consts
     \<lparr>free_ids = [], next_item_owner_id = 65535, has_wrapped_around = True\<rparr> =
     (0, \<lparr>free_ids = [], next_item_owner_id = 65535, has_wrapped_around = True\<rparr>) \<and>
   set (returned sample_consts
     \<lparr>free_ids = [], next_item_owner_id = 65535, has_wrapped_around = True\<rparr>
     [OpAllocate, OpFree 0, OpAllocate]) \<subseteq> {0}"
proof -
  let ?s = "\<lparr>free_ids = [], next_item_owner_id = 65535, has_wrapped_around = True\<rparr>
              :: 16 ItemOwnerIdAllocator"
  have e: "free_ids ?s = []" and w: "has_wrapped_around ?s" by simp_all
  have k: "kUnknownItemId sample_consts = 0" by (simp add: sample_consts_def)
  have sub: "set [OpAllocate, OpFree 0, OpAllocate]
      \<subseteq> {OpAllocate, OpFree (kUnknownItemId sample_consts)}"
    by (simp add: k)
  note th = Allocate_exhausted_returns_sentinel [OF e w, of sample_consts "{}"]
  from th have al: "Allocate sample_consts ?s = (kUnknownItemId sample_consts, ?s)"
    by (rule conjunct1)
  from th have "set (returned sample_consts ?s [OpAllocate, OpFree 0, OpAllocate])
      \<subseteq> {kUnknownItemId sample_consts}"
    using sub by (simp only: simp_thms)
  with al sub show ?thesis by (simp add: k)
qed

subsection \<open>Freeing\<close>

text \<open>
  Claim C5. \<open>Free\<close> of the sentinel changes nothing. \<open>Free\<close> of any other id appends it
  to the free list when the list is shorter than \<open>kMaxFreeItemOwnersIdListSize\<close>, and
  leaves the allocator as it was when the list is full: the id is dropped. An id
  dropped in this way by a disciplined client of a new allocator is never returned by a
  later \<open>Allocate\<close>.
\<close>

theorem Free_enqueues_or_discards:
  "(i = kUnknownItemId c \<longrightarrow> Free c s i = (i, s)) \<and>
   (i \<noteq> kUnknownItemId c \<and> length (free_ids s) < kMaxFreeItemOwnersIdListSize c \<longrightarrow>
      snd (Free c s i) = s\<lparr>free_ids := free_ids s @ [i]\<rparr>) \<and>
   (i \<noteq> kUnknownItemId c \<and> \<not> length (free_ids s) < kMaxFreeItemOwnersIdListSize c \<longrightarrow>
      snd (Free c s i) = s) \<and>
   (disciplined c (fresh_allocator c) {} (pre @ OpFree i # post) \<and> i \<noteq> kUnknownItemId c \<and>
    \<not> length (free_ids (fst (run c (fresh_allocator c) {} pre)))
        < kMaxFreeItemOwnersIdListSize c \<longrightarrow>
      i \<notin> set (returned c (snd (Free c (fst (run c (fresh_allocator c) {} pre)) i)) post))"
proof (intro conjI impI)
  show "Free c s i = (i, s)" if "i = kUnknownItemId c"
    using that by (simp add: Free_def)
  show "snd (Free c s i) = s\<lparr>free_ids := free_ids s @ [i]\<rparr>"
    if "i \<noteq> kUnknownItemId c \<and> length (free_ids s) < kMaxFreeItemOwnersIdListSize c"
    using that by (simp add: Free_def)
  show "snd (Free c s i) = s"
    if "i \<noteq> kUnknownItemId c \<and> \<not> length (free_ids s) < kMaxFreeItemOwnersIdListSize c"
    using that by (simp add: Free_def)
next
  let ?s = "fst (run c (fresh_allocator c) {} pre)"
  let ?live = "snd (run c (fresh_allocator c) {} pre)"
  assume a: "disciplined c (fresh_allocator c) {} (pre @ OpFree i # post) \<and>
    i \<noteq> kUnknownItemId c \<and> \<not> length (free_ids ?s) < kMaxFreeItemOwnersIdListSize c"
  then have pre: "disciplined c (fresh_allocator c) {} pre"
    and live: "i \<in> ?live"
    and post: "disciplined c (snd (Free c ?s i)) (?live - {i}) post"
    by (auto simp: disciplined_append)
  have inv: "alloc_inv c ?s ?live"
    using alloc_inv_fresh pre by (rule alloc_inv_run)
  from inv live have notin: "i \<notin> set (free_ids ?s)" and iss: "issued c ?s i"
    by (auto simp: alloc_inv_def)
  have inv': "alloc_inv c (snd (Free c ?s i)) (?live - {i})"
    using alloc_inv_Free [OF inv] live by blast
  have "i \<notin> set (free_ids (snd (Free c ?s i)))"
    using notin a by (simp add: free_ids_Free)
  with retired_id_never_returned [OF inv' post _ _ _ ] iss a
  show "i \<notin> set (returned c (snd (Free c ?s i)) post)"
    by (simp add: issued_Free)
qed

theorem Free_enqueues_or_discards_witness:
  "Free sample_consts \<lparr>free_ids = [5], next_item_owner_id = 9, has_wrapped_around = False\<rparr> 0 =
     (0, \<lparr>free_ids = [5], next_item_owner_id = 9, has_wrapped_around = False\<rparr>) \<and>
   snd (Free sample_consts
          \<lparr>free_ids = [5], next_item_owner_id = 9, has_wrapped_around = False\<rparr> 7) =
     \<lparr>free_ids = [5, 7], next_item_owner_id = 9, has_wrapped_around = False\<rparr> \<and>
   snd (Free (sample_consts\<lparr>kMaxFreeItemOwnersIdListSize := 1\<rparr>)
          \<lparr>free_ids = [5], next_item_owner_id = 9, has_wrapped_around = False\<rparr> 7) =
     \<lparr>free_ids = [5], next_item_owner_id = 9, has_wrapped_around = False\<rparr> \<and>
   disciplined (sample_consts\<lparr>kMaxFreeItemOwnersIdListSize := 1\<rparr>)
     (fresh_allocator (sample_consts\<lparr>kMaxFreeItemOwnersIdListSize := 1\<rparr>)) {}
     ([OpAllocate, OpAllocate, OpFree 1] @ OpFree 2 # [OpAllocate, OpAllocate]) \<and>
   2 \<notin> set (returned (sample_consts\<lparr>kMaxFreeItemOwnersIdListSize := 1\<rparr>)
     (snd (Free (sample_consts\<lparr>kMaxFreeItemOwnersIdListSize := 1\<rparr>)
        (fst (run (sample_consts\<lparr>kMaxFreeItemOwnersIdListSize := 1\<rparr>)
           (fresh_allocator (sample_consts\<lparr>kMaxFreeItemOwnersIdListSize := 1\<rparr>)) {}
           [OpAllocate, OpAllocate, OpFree 1])) 2))
     [OpAllocate, OpAllocate])"
proof -
  let ?s = "\<lparr>free_ids = [5], next_item_owner_id = 9, has_wrapped_around = False\<rparr>
              :: 16 ItemOwnerIdAllocator"
  let ?t = "sample_consts\<lparr>kMaxFreeItemOwnersIdListSize := 1\<rparr>"
  let ?pre = "[OpAllocate, OpAllocate, OpFree 1] :: 16 word op list"
  let ?post = "[OpAllocate, OpAllocate] :: 16 word op list"
  have h1: "(0::16 word) = kUnknownItemId sample_consts"
    by (simp add: sample_consts_def)
  have h2: "(7::16 word) \<noteq> kUnknownItemId sample_consts \<and>
      length (free_ids ?s) < kMaxFreeItemOwnersIdListSize sample_consts"
    by (simp add: sample_consts_def)
  have h3: "(7::16 word) \<noteq> kUnknownItemId ?t \<and>
      \<not> length (free_ids ?s) < kMaxFreeItemOwnersIdListSize ?t"
    by (simp add: sample_consts_def)
  have d: "disciplined ?t (fresh_allocator ?t) {} (?pre @ OpFree 2 # ?post)"
    by (simp add: sample_consts_def fresh_allocator_def Allocate_def Free_def hold_def)
  have full: "(2::16 word) \<noteq> kUnknownItemId ?t \<and>
      \<not> length (free_ids (fst (run ?t (fresh_allocator ?t) {} ?pre)))
          < kMaxFreeItemOwnersIdListSize ?t"
    by (simp add: sample_consts_def fresh_allocator_def Allocate_def Free_def hold_def)
  note t1 = Free_enqueues_or_discards
    [where c = sample_consts and s = ?s and i = 0 and pre = ?pre and post = ?post]
  note t2 = Free_enqueues_or_discards
    [where c = sample_consts and s = ?s and i = 7 and pre = ?pre and post = ?post]
  note t3 = Free_enqueues_or_discards
    [where c = ?t and s = ?s and i = 7 and pre = ?pre and post = ?post]
  note t4 = Free_enqueues_or_discards
    [where c = ?t and s = ?s and i = 2 and pre = ?pre and post = ?post]
  have c1: "Free sample_consts ?s 0 = (0, ?s)"
    by (rule t1 [THEN conjunct1, rule_format, OF h1])
  have c2: "snd (Free sample_consts ?s 7) = ?s\<lparr>free_ids := free_ids ?s @ [7]\<rparr>"
    by (rule t2 [THEN conjunct2, THEN conjunct1, rule_format, OF h2])
  have c3: "snd (Free ?t ?s 7) = ?s"
    by (rule t3 [THEN conjunct2, THEN conjunct2, THEN conjunct1, rule_format, OF h3])
  have c4: "2 \<notin> set (returned ?t
      (snd (Free ?t (fst (run ?t (fresh_allocator ?t) {} ?pre)) 2)) ?post)"
    by (rule t4 [THEN conjunct2, THEN conjunct2, THEN conjunct2, rule_format,
          OF conjI [OF d full]])
  from c1 c2 c3 c4 d show ?thesis by simp
qed

text \<open>
  Claim C6. After \<open>Free\<close> of an id other than the sentinel the caller's variable holds
  the sentinel, also when the free list was full and the id was dropped (the allocator is
  then unchanged). \<open>Free\<close> of the sentinel leaves the variable and the allocator as they
  were. \<open>DiscardItemOwnerId\<close> of the cache behaves in the same way.
\<close>

theorem Free_overwrites_the_callers_id:
  "(i \<noteq> kUnknownItemId c \<longrightarrow>
      fst (Free c s i) = kUnknownItemId c \<and>
      fst (DiscardItemOwnerId c cache i) = kUnknownItemId c) \<and>
   (i \<noteq> kUnknownItemId c \<and> \<not> length (free_ids s) < kMaxFreeItemOwnersIdListSize c \<longrightarrow>
      Free c s i = (kUnknownItemId c, s)) \<and>
   (i = kUnknownItemId c \<longrightarrow>
      Free c s i = (i, s) \<and> DiscardItemOwnerId c cache i = (i, cache))"
  by (simp add: Free_def DiscardItemOwnerId_def)

theorem Free_overwrites_the_callers_id_witness:
  "fst (Free sample_consts
          \<lparr>free_ids = [5], next_item_owner_id = 9, has_wrapped_around = False\<rparr> 7) = 0 \<and>
   Free (sample_consts\<lparr>kMaxFreeItemOwnersIdListSize := 1\<rparr>)
          \<lparr>free_ids = [5], next_item_owner_id = 9, has_wrapped_around = False\<rparr> 7 =
     (0, \<lparr>free_ids = [5], next_item_owner_id = 9, has_wrapped_around = False\<rparr>) \<and>
   DiscardItemOwnerId sample_consts
     \<lparr>owner_id_allocator =
        \<lparr>free_ids = [5], next_item_owner_id = 9, has_wrapped_around = False\<rparr>\<rparr> 0 =
     (0, \<lparr>owner_id_allocator =
        \<lparr>free_ids = [5], next_item_owner_id = 9, has_wrapped_around = False\<rparr>\<rparr>)"
proof -
  let ?s = "\<lparr>free_ids = [5], next_item_owner_id = 9, has_wrapped_around = False\<rparr>
              :: 16 ItemOwnerIdAllocator"
  let ?t = "sample_consts\<lparr>kMaxFreeItemOwnersIdListSize := 1\<rparr>"
  let ?cache = "\<lparr>owner_id_allocator = ?s\<rparr>"
  have k: "kUnknownItemId sample_consts = 0" "kUnknownItemId ?t = 0"
    by (simp_all add: sample_consts_def)
  have h1: "(7::16 word) \<noteq> kUnknownItemId sample_consts"
    by (simp add: sample_consts_def)
  have h2: "(7::16 word) \<noteq> kUnknownItemId ?t \<and>
      \<not> length (free_ids ?s) < kMaxFreeItemOwnersIdListSize ?t"
    by (simp add: sample_consts_def)
  have h3: "(0::16 word) = kUnknownItemId sample_consts"
    by (simp add: sample_consts_def)
  note t1 = Free_overwrites_the_callers_id
    [where c = sample_consts and s = ?s and i = 7 and cache = ?cache]
  note t2 = Free_overwrites_the_callers_id
    [where c = ?t and s = ?s and i = 7 and cache = ?cache]
  note t3 = Free_overwrites_the_callers_id
    [where c = sample_consts and s = ?s and i = 0 and cache = ?cache]
  have c1: "fst (Free sample_consts ?s 7) = kUnknownItemId sample_consts"
    by (rule t1 [THEN conjunct1, rule_format, OF h1, THEN conjunct1])
  have c2: "Free ?t ?s 7 = (kUnknownItemId ?t, ?s)"
    by (rule t2 [THEN conjunct2, THEN conjunct1, rule_format, OF h2])
  have c3: "DiscardItemOwnerId sample_consts ?cache 0 = (0, ?cache)"
    by (rule t3 [THEN conjunct2, THEN conjunct2, rule_format, OF h3, THEN conjunct2])
  from c1 c2 c3 show ?thesis by (simp add: k)
qed

section \<open>Properties of the construction from a string\<close>

subsection \<open>The string searches\<close>

lemma find_char_None: "find_char value ch = None \<longleftrightarrow> ch \<notin> set value"
  by (induction "value") auto

lemma find_str_start: "find_str value p = Some 0 \<longleftrightarrow> prefix p value"
  by (cases "value") auto

lemma ok_Status_OK: "ok Status_OK"
  by (simp add: ok_def Status_OK_def)

lemma not_ok_NotSupported: "\<not> ok (Status_NotSupported m m2)"
  by (simp add: ok_def Status_NotSupported_def)

lemma ParseSizeT_spec_example: "ParseSizeT_spec ''1048576'' = 1048576"
  by (simp add: ParseSizeT_spec_def digit_value_def)

lemma SecondaryCache_CreateFromString_scheme:
  assumes "prefix ''compressed_secondary_cache://'' str"
  shows "SecondaryCache_CreateFromString env lite config_options str result =
     (if \<not> lite then
        (case ParseStruct_CompressedSecondaryCacheOptions env config_options []
                comp_sec_cache_options_type_info [] (drop 29 str)
                (default_CompressedSecondaryCacheOptions env) of
           (st, sec_cache_opts) \<Rightarrow>
             (st, if ok st then NewCompressedSecondaryCache env sec_cache_opts else result))
      else (Status_NotSupported
              ''Cannot load compressed secondary cache in LITE mode '' (drop 29 str), result))"
proof -
  have "length ''compressed_secondary_cache://'' = 29"
    by (simp add: eval_nat_numeral)
  then have len: "drop (length ''compressed_secondary_cache://'') str = drop 29 str"
    by (simp only:)
  have found: "find_str str ''compressed_secondary_cache://'' = Some 0"
    using assms by (simp only: find_str_start)
  show ?thesis
    unfolding SecondaryCache_CreateFromString_def found len Let_def
    by (cases "ParseStruct_CompressedSecondaryCacheOptions env config_options []
                comp_sec_cache_options_type_info [] (drop 29 str)
                (default_CompressedSecondaryCacheOptions env)")
       (simp add: not_ok_NotSupported)
qed

lemma SecondaryCache_CreateFromString_other:
  assumes "\<not> prefix ''compressed_secondary_cache://'' str"
  shows "SecondaryCache_CreateFromString env lite config_options str result =
     LoadSharedObject env config_options str result"
  using assms by (simp add: SecondaryCache_CreateFromString_def find_str_start)

lemma Cache_CreateFromString_struct:
  assumes "CHR ''='' \<in> set str"
  shows "Cache_CreateFromString env lite config_options str result =
     (if \<not> lite then
        (case ParseStruct_LRUCacheOptions env config_options []
                lru_cache_options_type_info [] str (default_LRUCacheOptions env) of
           (st, cache_opts) \<Rightarrow>
             (st, if ok st then NewLRUCache_options env cache_opts else result))
      else (Status_NotSupported ''Cannot load cache in LITE mode '' str, result))"
proof -
  from assms have "find_char str CHR ''='' \<noteq> None"
    by (simp add: find_char_None)
  then obtain pos where found: "find_char str CHR ''='' = Some pos"
    by blast
  show ?thesis
    unfolding Cache_CreateFromString_def found
    by (cases "ParseStruct_LRUCacheOptions env config_options []
                lru_cache_options_type_info [] str (default_LRUCacheOptions env)")
       (simp add: not_ok_NotSupported)
qed

lemma Cache_CreateFromString_plain:
  assumes "CHR ''='' \<notin> set str"
  shows "Cache_CreateFromString env lite config_options str result =
     (Status_OK, NewLRUCache_capacity env (ParseSizeT env str))"
proof -
  from assms have "find_char str CHR ''='' = None"
    by (simp add: find_char_None)
  then show ?thesis
    by (simp add: Cache_CreateFromString_def ok_Status_OK)
qed

subsection \<open>A plain capacity\<close>

text \<open>
  Claim C7. For a string without the character \<^verbatim>\<open>=\<close>, \<open>Cache_CreateFromString\<close> succeeds
  and sets the result to the cache that \<^verbatim>\<open>NewLRUCache\<close> builds from the capacity that
  \<^verbatim>\<open>ParseSizeT\<close> reads in the string, in either build profile. With the two helpers as
  the specification describes them, the string \<^verbatim>\<open>1048576\<close> gives the cache of capacity
  1048576 whose other settings are the defaults.
\<close>

theorem plain_capacity_builds_default_cache:
  "(CHR ''='' \<notin> set str \<longrightarrow>
      Cache_CreateFromString env lite config_options str result =
        (Status_OK, NewLRUCache_capacity env (ParseSizeT env str))) \<and>
   Cache_CreateFromString
     (env'\<lparr>ParseSizeT := ParseSizeT_spec, NewLRUCache_capacity := NewLRUCache_spec defaults\<rparr>)
     lite' config_options' ''1048576'' result' =
     (Status_OK, Some (defaults\<lparr>capacity := 1048576\<rparr>))"
proof (intro conjI impI)
  assume "CHR ''='' \<notin> set str"
  then have "find_char str CHR ''='' = None"
    by (simp add: find_char_None)
  then show "Cache_CreateFromString env lite config_options str result =
        (Status_OK, NewLRUCache_capacity env (ParseSizeT env str))"
    by (simp add: Cache_CreateFromString_def ok_Status_OK)
next
  have "find_char ''1048576'' CHR ''='' = None"
    by (simp add: find_char_None)
  then show "Cache_CreateFromString
     (env'\<lparr>ParseSizeT := ParseSizeT_spec, NewLRUCache_capacity := NewLRUCache_spec defaults\<rparr>)
     lite' config_options' ''1048576'' result' =
     (Status_OK, Some (defaults\<lparr>capacity := 1048576\<rparr>))"
    by (simp add: Cache_CreateFromString_def ok_Status_OK ParseSizeT_spec_example
        NewLRUCache_spec_def)
qed

theorem plain_capacity_builds_default_cache_witness:
  "CHR ''='' \<notin> set ''1048576'' \<and>
   Cache_CreateFromString sample_collaborators False () ''1048576'' None =
     (Status_OK, Some (sample_defaults\<lparr>capacity := 1048576\<rparr>))"
proof -
  have h: "CHR ''='' \<notin> set ''1048576''" by simp
  have "Cache_CreateFromString sample_collaborators False () ''1048576'' None =
      (Status_OK, NewLRUCache_capacity sample_collaborators
         (ParseSizeT sample_collaborators ''1048576''))"
    by (rule plain_capacity_builds_default_cache
          [where env = sample_collaborators and lite = False and config_options = "()"
             and str = "''1048576''" and result = None,
           THEN conjunct1, rule_format, OF h])
  then show ?thesis
    using h by (simp add: sample_collaborators_def ParseSizeT_spec_example NewLRUCache_spec_def)
qed

subsection \<open>The scheme of the compressed secondary cache\<close>

text \<open>
  Claim C8. The outcome of \<open>SecondaryCache_CreateFromString\<close> is independent of the
  object registry exactly when the string starts with \<^verbatim>\<open>compressed_secondary_cache://\<close>.
  For such a string (in the full build profile) the rest of the string, after the 29
  characters of the scheme, is parsed with the table of the secondary options, whose
  keys are \<^verbatim>\<open>capacity\<close>, \<^verbatim>\<open>num_shard_bits\<close>, \<^verbatim>\<open>compression_type\<close>,
  \<^verbatim>\<open>compress_format_version\<close> and \<^verbatim>\<open>enable_custom_split_merge\<close>, and on success the
  compressed secondary cache is built from the parsed options. Every other string goes
  unchanged, with the caller's result, to the registry, whose answer is returned.
\<close>

theorem scheme_selects_compressed_secondary_cache:
  "(prefix ''compressed_secondary_cache://'' str \<longleftrightarrow>
      (\<forall>f. SecondaryCache_CreateFromString (env\<lparr>LoadSharedObject := f\<rparr>) lite
             config_options str result =
           SecondaryCache_CreateFromString env lite config_options str result)) \<and>
   (prefix ''compressed_secondary_cache://'' str \<and> \<not> lite \<longrightarrow>
      SecondaryCache_CreateFromString env lite config_options str result =
        (case ParseStruct_CompressedSecondaryCacheOptions env config_options []
                comp_sec_cache_options_type_info [] (drop 29 str)
                (default_CompressedSecondaryCacheOptions env) of
           (st, sec_cache_opts) \<Rightarrow>
             (st, if ok st then NewCompressedSecondaryCache env sec_cache_opts else result))) \<and>
   (\<not> prefix ''compressed_secondary_cache://'' str \<longrightarrow>
      SecondaryCache_CreateFromString env lite config_options str result =
        LoadSharedObject env config_options str result) \<and>
   map fst comp_sec_cache_options_type_info =
     [''capacity'', ''num_shard_bits'', ''compression_type'', ''compress_format_version'',
      ''enable_custom_split_merge'']"
proof (intro conjI impI iffI allI)
  fix f
  assume "prefix ''compressed_secondary_cache://'' str"
  then show "SecondaryCache_CreateFromString (env\<lparr>LoadSharedObject := f\<rparr>) lite
             config_options str result =
           SecondaryCache_CreateFromString env lite config_options str result"
    by (simp add: SecondaryCache_CreateFromString_scheme split: prod.splits)
next
  assume indep: "\<forall>f. SecondaryCache_CreateFromString (env\<lparr>LoadSharedObject := f\<rparr>) lite
             config_options str result =
           SecondaryCache_CreateFromString env lite config_options str result"
  show "prefix ''compressed_secondary_cache://'' str"
  proof (rule ccontr)
    assume np: "\<not> prefix ''compressed_secondary_cache://'' str"
    have deleg: "SecondaryCache_CreateFromString (env\<lparr>LoadSharedObject := f\<rparr>) lite
        config_options str result = f config_options str result" for f
      using np by (simp add: SecondaryCache_CreateFromString_other)
    from indep deleg [of "\<lambda>_ _ _. (Status_OK, result)"]
    have a: "SecondaryCache_CreateFromString env lite config_options str result =
        (Status_OK, result)" by metis
    from indep deleg [of "\<lambda>_ _ _. (Status_NotSupported [] [], result)"]
    have b: "SecondaryCache_CreateFromString env lite config_options str result =
        (Status_NotSupported [] [], result)" by metis
    from a b show False
      by (simp add: Status_OK_def Status_NotSupported_def)
  qed
next
  assume "prefix ''compressed_secondary_cache://'' str \<and> \<not> lite"
  then show "SecondaryCache_CreateFromString env lite config_options str result =
        (case ParseStruct_CompressedSecondaryCacheOptions env config_options []
                comp_sec_cache_options_type_info [] (drop 29 str)
                (default_CompressedSecondaryCacheOptions env) of
           (st, sec_cache_opts) \<Rightarrow>
             (st, if ok st then NewCompressedSecondaryCache env sec_cache_opts else result))"
    by (simp add: SecondaryCache_CreateFromString_scheme)
next
  assume "\<not> prefix ''compressed_secondary_cache://'' str"
  then show "SecondaryCache_CreateFromString env lite config_options str result =
        LoadSharedObject env config_options str result"
    by (rule SecondaryCache_CreateFromString_other)
next
  show "map fst comp_sec_cache_options_type_info =
     [''capacity'', ''num_shard_bits'', ''compression_type'', ''compress_format_version'',
      ''enable_custom_split_merge'']"
    by (simp add: comp_sec_cache_options_type_info_def)
qed

theorem scheme_selects_compressed_secondary_cache_witness:
  "prefix ''compressed_secondary_cache://'' ''compressed_secondary_cache://capacity=4096'' \<and>
   SecondaryCache_CreateFromString sample_collaborators False ()
     ''compressed_secondary_cache://capacity=4096'' None = (Status_OK, Some 4096) \<and>
   SecondaryCache_CreateFromString
     (sample_collaborators\<lparr>LoadSharedObject := \<lambda>cfg v r. (Status_OK, Some 9)\<rparr>) False ()
     ''compressed_secondary_cache://capacity=4096'' None = (Status_OK, Some 4096) \<and>
   \<not> prefix ''compressed_secondary_cache://'' ''my_cache'' \<and>
   SecondaryCache_CreateFromString sample_collaborators False () ''my_cache'' None =
     (Status_OK, Some 7)"
proof -
  let ?a = "''compressed_secondary_cache://capacity=4096''"
  note t1 = scheme_selects_compressed_secondary_cache
    [where env = sample_collaborators and lite = False and config_options = "()"
       and str = ?a and result = None]
  note t2 = scheme_selects_compressed_secondary_cache
    [where env = sample_collaborators and lite = False and config_options = "()"
       and str = "''my_cache''" and result = None]
  have p: "prefix ''compressed_secondary_cache://'' ?a" by simp
  have np: "\<not> prefix ''compressed_secondary_cache://'' ''my_cache''" by simp
  have args: "drop 29 ?a = ''capacity=4096''" by (simp add: eval_nat_numeral)
  have c1: "SecondaryCache_CreateFromString sample_collaborators False () ?a None =
      (Status_OK, Some 4096)"
    using t1 [THEN conjunct2, THEN conjunct1, rule_format, OF conjI [OF p]]
    by (simp add: args sample_collaborators_def ok_Status_OK)
  have "SecondaryCache_CreateFromString
      (sample_collaborators\<lparr>LoadSharedObject := \<lambda>cfg v r. (Status_OK, Some 9)\<rparr>) False ()
      ?a None = SecondaryCache_CreateFromString sample_collaborators False () ?a None"
    using t1 [THEN conjunct1, THEN iffD1, OF p] by (rule spec)
  with c1 have c2: "SecondaryCache_CreateFromString
      (sample_collaborators\<lparr>LoadSharedObject := \<lambda>cfg v r. (Status_OK, Some 9)\<rparr>) False ()
      ?a None = (Status_OK, Some 4096)"
    by (simp only:)
  have c3: "SecondaryCache_CreateFromString sample_collaborators False () ''my_cache'' None =
      (Status_OK, Some 7)"
    using t2 [THEN conjunct2, THEN conjunct2, THEN conjunct1, rule_format, OF np]
    by (simp add: sample_collaborators_def)
  from p np c1 c2 c3 show ?thesis by (simp only: simp_thms)
qed

subsection \<open>Errors of construction\<close>

text \<open>
  Claim C9, as the claim states it, fails. A string without the scheme goes to the
  object registry together with the caller's \<^verbatim>\<open>result\<close>, and the constructor returns
  what the registry returns: with a registry that stores an object and then reports an
  error, the caller gets the error and the object. And a cache constructor that answers
  with the null pointer is not reported: the status is OK and the caller's result is
  replaced by null.
\<close>

theorem construction_failure_counterexample:
  "SecondaryCache_CreateFromString eager_registry_collaborators False () ''no_such_cache'' None =
     (Status kInvalidArgument ''no_such_cache'' [], Some 99) \<and>
   \<not> ok (Status kInvalidArgument ''no_such_cache'' []) \<and>
   Cache_CreateFromString null_constructor_collaborators False () ''capacity=2048''
     (Some sample_defaults) = (Status_OK, None)"
  by (simp add: SecondaryCache_CreateFromString_def Cache_CreateFromString_def
      eager_registry_collaborators_def null_constructor_collaborators_def
      sample_collaborators_def ok_def Status_OK_def)

text \<open>
  Claim C9, amended. In \<open>Cache_CreateFromString\<close> on a string that contains \<^verbatim>\<open>=\<close>, and
  in \<open>SecondaryCache_CreateFromString\<close> on a string with the scheme of the compressed
  secondary cache, every error of the struct parser, and the \<^verbatim>\<open>NotSupported\<close> of the
  reduced build, is returned to the caller as the status, and \<^verbatim>\<open>*result\<close> keeps the
  value it had. These are the only ways in which the two paths return a status that is
  not \<open>ok\<close>, and \<open>Cache_CreateFromString\<close> returns none on a string without \<^verbatim>\<open>=\<close>. On a
  string without the scheme \<open>SecondaryCache_CreateFromString\<close> returns the status and
  the result of the object registry as they are.
\<close>

theorem construction_errors_reach_the_caller:
  "(CHR ''='' \<in> set str \<and>
    (lite \<or> \<not> ok (fst (ParseStruct_LRUCacheOptions env config_options []
                          lru_cache_options_type_info [] str (default_LRUCacheOptions env)))) \<longrightarrow>
      Cache_CreateFromString env lite config_options str result =
        (if lite then Status_NotSupported ''Cannot load cache in LITE mode '' str
         else fst (ParseStruct_LRUCacheOptions env config_options []
                     lru_cache_options_type_info [] str (default_LRUCacheOptions env)),
         result) \<and>
      \<not> ok (fst (Cache_CreateFromString env lite config_options str result))) \<and>
   (\<not> ok (fst (Cache_CreateFromString env lite config_options str result)) \<longrightarrow>
      CHR ''='' \<in> set str \<and>
      (lite \<or> \<not> ok (fst (ParseStruct_LRUCacheOptions env config_options []
                            lru_cache_options_type_info [] str (default_LRUCacheOptions env)))) \<and>
      snd (Cache_CreateFromString env lite config_options str result) = result) \<and>
   (prefix ''compressed_secondary_cache://'' str \<and>
    (lite \<or> \<not> ok (fst (ParseStruct_CompressedSecondaryCacheOptions env config_options []
                          comp_sec_cache_options_type_info [] (drop 29 str)
                          (default_CompressedSecondaryCacheOptions env)))) \<longrightarrow>
      SecondaryCache_CreateFromString env lite config_options str sec_result =
        (if lite then Status_NotSupported
                        ''Cannot load compressed secondary cache in LITE mode '' (drop 29 str)
         else fst (ParseStruct_CompressedSecondaryCacheOptions env config_options []
                     comp_sec_cache_options_type_info [] (drop 29 str)
                     (default_CompressedSecondaryCacheOptions env)),
         sec_result) \<and>
      \<not> ok (fst (SecondaryCache_CreateFromString env lite config_options str sec_result))) \<and>
   (prefix ''compressed_secondary_cache://'' str \<and>
    \<not> ok (fst (SecondaryCache_CreateFromString env lite config_options str sec_result)) \<longrightarrow>
      (lite \<or> \<not> ok (fst (ParseStruct_CompressedSecondaryCacheOptions env config_options []
                            comp_sec_cache_options_type_info [] (drop 29 str)
                            (default_CompressedSecondaryCacheOptions env)))) \<and>
      snd (SecondaryCache_CreateFromString env lite config_options str sec_result) = sec_result) \<and>
   (\<not> prefix ''compressed_secondary_cache://'' str \<longrightarrow>
      SecondaryCache_CreateFromString env lite config_options str sec_result =
        LoadSharedObject env config_options str sec_result)"
proof -
  let ?P = "ParseStruct_LRUCacheOptions env config_options []
      lru_cache_options_type_info [] str (default_LRUCacheOptions env)"
  let ?Q = "ParseStruct_CompressedSecondaryCacheOptions env config_options []
      comp_sec_cache_options_type_info [] (drop 29 str)
      (default_CompressedSecondaryCacheOptions env)"
  let ?C = "Cache_CreateFromString env lite config_options str result"
  let ?S = "SecondaryCache_CreateFromString env lite config_options str sec_result"
  have c1: "?C = (if lite then Status_NotSupported ''Cannot load cache in LITE mode '' str
                  else fst ?P, result) \<and> \<not> ok (fst ?C)"
    if "CHR ''='' \<in> set str \<and> (lite \<or> \<not> ok (fst ?P))"
  proof -
    from that have eq: "CHR ''='' \<in> set str" and bad: "lite \<or> \<not> ok (fst ?P)"
      by simp_all
    show ?thesis
      unfolding Cache_CreateFromString_struct [OF eq]
      using bad by (cases ?P) (auto simp: not_ok_NotSupported)
  qed
  have c2: "CHR ''='' \<in> set str \<and> (lite \<or> \<not> ok (fst ?P)) \<and> snd ?C = result"
    if bad: "\<not> ok (fst ?C)"
  proof (cases "CHR ''='' \<in> set str")
    case True
    show ?thesis
      using bad True unfolding Cache_CreateFromString_struct [OF True]
      by (cases ?P) (auto split: if_splits)
  next
    case False
    with bad show ?thesis
      by (simp add: Cache_CreateFromString_plain ok_Status_OK)
  qed
  have s1: "?S = (if lite then Status_NotSupported
                        ''Cannot load compressed secondary cache in LITE mode '' (drop 29 str)
                  else fst ?Q, sec_result) \<and> \<not> ok (fst ?S)"
    if "prefix ''compressed_secondary_cache://'' str \<and> (lite \<or> \<not> ok (fst ?Q))"
  proof -
    from that have p: "prefix ''compressed_secondary_cache://'' str"
      and bad: "lite \<or> \<not> ok (fst ?Q)"
      by simp_all
    show ?thesis
      unfolding SecondaryCache_CreateFromString_scheme [OF p]
      using bad by (cases ?Q) (auto simp: not_ok_NotSupported)
  qed
  have s2: "(lite \<or> \<not> ok (fst ?Q)) \<and> snd ?S = sec_result"
    if "prefix ''compressed_secondary_cache://'' str \<and> \<not> ok (fst ?S)"
  proof -
    from that have p: "prefix ''compressed_secondary_cache://'' str"
      and bad: "\<not> ok (fst ?S)"
      by simp_all
    show ?thesis
      using bad unfolding SecondaryCache_CreateFromString_scheme [OF p]
      by (cases ?Q) (auto split: if_splits)
  qed
  have s3: "?S = LoadSharedObject env config_options str sec_result"
    if "\<not> prefix ''compressed_secondary_cache://'' str"
    using that by (rule SecondaryCache_CreateFromString_other)
  show ?thesis
    apply (rule conjI, rule impI, erule c1)
    apply (rule conjI, rule impI, erule c2)
    apply (rule conjI, rule impI, erule s1)
    apply (rule conjI, rule impI, erule s2)
    apply (rule impI, erule s3)
    done
qed

theorem construction_errors_reach_the_caller_witness:
  "CHR ''='' \<in> set ''capacity=bad'' \<and>
   Cache_CreateFromString sample_collaborators False () ''capacity=bad'' (Some sample_defaults) =
     (Status kInvalidArgument ''capacity=bad'' [], Some sample_defaults) \<and>
   \<not> ok (fst (Cache_CreateFromString sample_collaborators False () ''capacity=bad''
              (Some sample_defaults))) \<and>
   prefix ''compressed_secondary_cache://'' ''compressed_secondary_cache://bad'' \<and>
   SecondaryCache_CreateFromString sample_collaborators False ()
     ''compressed_secondary_cache://bad'' (Some 3) =
     (Status kInvalidArgument ''bad'' [], Some 3) \<and>
   \<not> ok (fst (SecondaryCache_CreateFromString sample_collaborators False ()
              ''compressed_secondary_cache://bad'' (Some 3))) \<and>
   \<not> prefix ''compressed_secondary_cache://'' ''my_cache'' \<and>
   SecondaryCache_CreateFromString sample_collaborators False () ''my_cache'' None =
     (Status_OK, Some 7)"
proof -
  let ?b = "''compressed_secondary_cache://bad''"
  let ?C = "Cache_CreateFromString sample_collaborators False () ''capacity=bad''
      (Some sample_defaults)"
  let ?S = "SecondaryCache_CreateFromString sample_collaborators False () ?b (Some 3)"
  note t1 = construction_errors_reach_the_caller
    [where env = sample_collaborators and lite = False and config_options = "()"
       and str = "''capacity=bad''" and result = "Some sample_defaults"
       and sec_result = "Some 3"]
  note t2 = construction_errors_reach_the_caller
    [where env = sample_collaborators and lite = False and config_options = "()"
       and str = ?b and result = "Some sample_defaults" and sec_result = "Some 3"]
  note t3 = construction_errors_reach_the_caller
    [where env = sample_collaborators and lite = False and config_options = "()"
       and str = "''my_cache''" and result = "Some sample_defaults" and sec_result = None]
  have e: "CHR ''='' \<in> set ''capacity=bad''" by simp
  have p: "prefix ''compressed_secondary_cache://'' ?b" by simp
  have np: "\<not> prefix ''compressed_secondary_cache://'' ''my_cache''" by simp
  have args: "drop 29 ?b = ''bad''" by (simp add: eval_nat_numeral)
  have h1: "CHR ''='' \<in> set ''capacity=bad'' \<and>
      (False \<or> \<not> ok (fst (ParseStruct_LRUCacheOptions sample_collaborators () []
          lru_cache_options_type_info [] ''capacity=bad''
          (default_LRUCacheOptions sample_collaborators))))"
    by (simp add: sample_collaborators_def ok_def)
  have h3: "prefix ''compressed_secondary_cache://'' ?b \<and>
      (False \<or> \<not> ok (fst (ParseStruct_CompressedSecondaryCacheOptions sample_collaborators () []
          comp_sec_cache_options_type_info [] (drop 29 ?b)
          (default_CompressedSecondaryCacheOptions sample_collaborators))))"
    by (simp add: args sample_collaborators_def ok_def)
  note a1 = t1 [THEN conjunct1, rule_format, OF h1]
  have c1: "?C = (Status kInvalidArgument ''capacity=bad'' [], Some sample_defaults)"
    using a1 [THEN conjunct1] by (simp add: sample_collaborators_def)
  have f1: "\<not> ok (fst ?C)"
    by (rule a1 [THEN conjunct2])
  have k1: "snd ?C = Some sample_defaults"
    using t1 [THEN conjunct2, THEN conjunct1, rule_format, OF f1] by simp
  note a3 = t2 [THEN conjunct2, THEN conjunct2, THEN conjunct1, rule_format, OF h3]
  have c3: "?S = (Status kInvalidArgument ''bad'' [], Some 3)"
    using a3 [THEN conjunct1] by (simp add: args sample_collaborators_def)
  have f3: "\<not> ok (fst ?S)"
    by (rule a3 [THEN conjunct2])
  have k3: "snd ?S = Some 3"
    using t2 [THEN conjunct2, THEN conjunct2, THEN conjunct2, THEN conjunct1, rule_format,
      OF conjI [OF p f3]] by simp
  have c5: "SecondaryCache_CreateFromString sample_collaborators False () ''my_cache'' None =
      (Status_OK, Some 7)"
    using t3 [THEN conjunct2, THEN conjunct2, THEN conjunct2, THEN conjunct2, rule_format, OF np]
    by (simp add: sample_collaborators_def)
  from e p np c1 f1 k1 c3 f3 k3 c5 show ?thesis by (simp only: simp_thms)
qed

subsection \<open>The reduced build profile\<close>

text \<open>
  Claim C10. In the build profile \<^verbatim>\<open>ROCKSDB_LITE\<close>, \<open>SecondaryCache_CreateFromString\<close> on
  a string with the scheme of the compressed secondary cache, and
  \<open>Cache_CreateFromString\<close> on a string that contains \<^verbatim>\<open>=\<close>, return a status built by
  \<^verbatim>\<open>Status::NotSupported\<close>, which is not \<open>ok\<close>, and leave \<^verbatim>\<open>*result\<close> as it was: no cache
  is built.
\<close>

theorem lite_build_is_not_supported:
  "(lite \<and> prefix ''compressed_secondary_cache://'' str \<longrightarrow>
      SecondaryCache_CreateFromString env lite config_options str sec_result =
        (Status_NotSupported ''Cannot load compressed secondary cache in LITE mode ''
           (drop 29 str), sec_result)) \<and>
   (lite \<and> CHR ''='' \<in> set str \<longrightarrow>
      Cache_CreateFromString env lite config_options str result =
        (Status_NotSupported ''Cannot load cache in LITE mode '' str, result)) \<and>
   code (Status_NotSupported m m2) = kNotSupported \<and> \<not> ok (Status_NotSupported m m2)"
proof (intro conjI impI)
  assume "lite \<and> prefix ''compressed_secondary_cache://'' str"
  then show "SecondaryCache_CreateFromString env lite config_options str sec_result =
        (Status_NotSupported ''Cannot load compressed secondary cache in LITE mode ''
           (drop 29 str), sec_result)"
    by (simp add: SecondaryCache_CreateFromString_scheme)
next
  assume a: "lite \<and> CHR ''='' \<in> set str"
  then have "find_char str CHR ''='' \<noteq> None"
    by (simp add: find_char_None)
  then obtain pos where "find_char str CHR ''='' = Some pos"
    by blast
  with a show "Cache_CreateFromString env lite config_options str result =
        (Status_NotSupported ''Cannot load cache in LITE mode '' str, result)"
    by (simp add: Cache_CreateFromString_def not_ok_NotSupported)
next
  show "code (Status_NotSupported m m2) = kNotSupported"
    by (simp add: Status_NotSupported_def)
  show "\<not> ok (Status_NotSupported m m2)"
    by (rule not_ok_NotSupported)
qed

theorem lite_build_is_not_supported_witness:
  "prefix ''compressed_secondary_cache://'' ''compressed_secondary_cache://capacity=4096'' \<and>
   SecondaryCache_CreateFromString sample_collaborators True ()
     ''compressed_secondary_cache://capacity=4096'' None =
     (Status kNotSupported ''Cannot load compressed secondary cache in LITE mode ''
        ''capacity=4096'', None) \<and>
   CHR ''='' \<in> set ''capacity=2048'' \<and>
   Cache_CreateFromString sample_collaborators True () ''capacity=2048'' None =
     (Status kNotSupported ''Cannot load cache in LITE mode '' ''capacity=2048'', None)"
proof -
  let ?a = "''compressed_secondary_cache://capacity=4096''"
  note t1 = lite_build_is_not_supported
    [where env = sample_collaborators and lite = True and config_options = "()"
       and str = ?a and result = None and sec_result = None]
  note t2 = lite_build_is_not_supported
    [where env = sample_collaborators and lite = True and config_options = "()"
       and str = "''capacity=2048''" and result = None and sec_result = None]
  have p: "prefix ''compressed_secondary_cache://'' ?a" by simp
  have e: "CHR ''='' \<in> set ''capacity=2048''" by simp
  have args: "drop 29 ?a = ''capacity=4096''" by (simp add: eval_nat_numeral)
  have c1: "SecondaryCache_CreateFromString sample_collaborators True () ?a None =
      (Status_NotSupported ''Cannot load compressed secondary cache in LITE mode ''
         (drop 29 ?a), None)"
    by (rule t1 [THEN conjunct1, rule_format, OF conjI [OF TrueI p]])
  have c2: "Cache_CreateFromString sample_collaborators True () ''capacity=2048'' None =
      (Status_NotSupported ''Cannot load cache in LITE mode '' ''capacity=2048'', None)"
    by (rule t2 [THEN conjunct2, THEN conjunct1, rule_format, OF conjI [OF TrueI e]])
  from p e c1 c2 show ?thesis
    by (simp only: args Status_NotSupported_def simp_thms)
qed

end
